theory Spec2Isabelle
  imports Complex_Main
begin

section \<open>JavaScript values shared by the models\<close>

text \<open>
  Every exception of the sources is \<^verbatim>\<open>new Error(message)\<close>; reading a property of
  \<^verbatim>\<open>undefined\<close> raises a \<^verbatim>\<open>TypeError\<close>. A rejected promise of the environment (file
  reader, provider call, fetch) carries a value of the same type.
\<close>

datatype js_error = Error string | TypeError

text \<open>
  A JavaScript number as far as \<^verbatim>\<open>video.duration\<close> needs it: a finite double, which is
  a real number, positive infinity (a stream without a known end) or NaN.
\<close>

datatype js_number = Finite real | Infinity | NaN

text \<open>Decimal printing of a non-negative integer, as a template literal prints it.\<close>

fun show_nat :: "nat \<Rightarrow> string" where
  "show_nat n =
     (if n < 10 then [''0123456789'' ! n]
      else show_nat (n div 10) @ [''0123456789'' ! (n mod 10)])"

declare show_nat.simps [simp del]

definition show_int :: "int \<Rightarrow> string" where
  "show_int z = (if z < 0 then ''-'' @ show_nat (nat (- z)) else show_nat (nat z))"

text \<open>\<^verbatim>\<open>${x}\<close> for a string that may be \<^verbatim>\<open>undefined\<close>.\<close>

definition js_string :: "string option \<Rightarrow> string" where
  "js_string x = (case x of None \<Rightarrow> ''undefined'' | Some s \<Rightarrow> s)"

text \<open>Truthiness of a string that may be \<^verbatim>\<open>undefined\<close>: the empty string is falsy.\<close>

definition truthy :: "string option \<Rightarrow> bool" where
  "truthy x = (case x of None \<Rightarrow> False | Some s \<Rightarrow> s \<noteq> [])"

text \<open>\<^verbatim>\<open>s.split(',')\<close> and the element at index 1 of the result (\<^verbatim>\<open>undefined\<close> when absent).\<close>

fun split_comma :: "string \<Rightarrow> string list" where
  "split_comma [] = [[]]"
| "split_comma (c # cs) =
     (if c = CHR '','' then [] # split_comma cs
      else (case split_comma cs of
              [] \<Rightarrow> [[c]]
            | w # ws \<Rightarrow> (c # w) # ws))"

definition second :: "'a list \<Rightarrow> 'a option" where
  "second xs = (case xs of _ # y # _ \<Rightarrow> Some y | _ \<Rightarrow> None)"

section \<open>Frame sampler: \<^verbatim>\<open>extractFrames\<close> of the video analysis component\<close>

text \<open>
  The sampler is a promise whose executor installs three event handlers on the hidden
  video element. The model keeps the closure variables, the promise and the log of the
  calls the handlers make in one state record, has one function per handler, and lets the
  video element deliver its events in \<open>seek_loop\<close>.
\<close>

definition interval :: nat where
  "interval = 1"

definition maxFrames :: nat where
  "maxFrames = 16"

text \<open>
  What the browser makes of the selected file: \<open>metadata\<close> is the duration reported with
  \<^verbatim>\<open>loadedmetadata\<close>, or \<open>None\<close> when the element raises \<^verbatim>\<open>error\<close> instead;
  \<open>decode_error_at\<close> is the seek (counted from 0) that ends in an \<^verbatim>\<open>error\<close> event
  instead of \<^verbatim>\<open>seeked\<close>, if there is one; \<open>picture t\<close> is the JPEG data URL that the
  canvas yields for the picture shown at timeline position \<open>t\<close>.
\<close>

record video_file =
  metadata :: "js_number option"
  videoWidth :: nat
  videoHeight :: nat
  decode_error_at :: "nat option"
  picture :: "nat \<Rightarrow> string"

text \<open>
  The component's references: whether \<^verbatim>\<open>videoRef.current\<close> and \<^verbatim>\<open>canvasRef.current\<close> are
  set, and whether \<^verbatim>\<open>canvas.getContext('2d')\<close> returned a context.
\<close>

record refs =
  videoRef :: bool
  canvasRef :: bool
  ctx :: bool

datatype 'a promise = Pending | Resolved 'a | Rejected js_error

datatype sampler_effect =
    CreateObjectURL
  | SetSrc
  | SetCanvasSize nat nat
  | SeekTo nat
  | DrawImage nat
  | SetProgress string
  | RevokeObjectURL

text \<open>
  The state of one call: the array \<^verbatim>\<open>frames\<close>, the closure variables \<^verbatim>\<open>currentTime\<close> and
  \<^verbatim>\<open>frameCount\<close>, the element's own \<^verbatim>\<open>video.currentTime\<close>, the promise, and the calls
  made so far, oldest first.
\<close>

record sampler =
  frames :: "string list"
  currentTime :: nat
  frameCount :: nat
  video_currentTime :: nat
  promise :: "string list promise"
  effects :: "sampler_effect list"

definition init :: sampler where
  "init = \<lparr>frames = [], currentTime = 0, frameCount = 0, video_currentTime = 0,
           promise = Pending, effects = []\<rparr>"

definition emit :: "sampler_effect \<Rightarrow> sampler \<Rightarrow> sampler" where
  "emit x s = s\<lparr>effects := effects s @ [x]\<rparr>"

text \<open>\<^verbatim>\<open>resolve\<close> and \<^verbatim>\<open>reject\<close> change a promise only while it is pending.\<close>

definition settle :: "string list promise \<Rightarrow> sampler \<Rightarrow> sampler" where
  "settle p s = (if promise s = Pending then s\<lparr>promise := p\<rparr> else s)"

text \<open>
  \<^verbatim>\<open>currentTime >= duration\<close>, for the whole number of seconds \<open>t\<close>. A comparison with
  NaN is false.
\<close>

fun reached :: "nat \<Rightarrow> js_number \<Rightarrow> bool" where
  "reached t (Finite d) = (d \<le> real t)"
| "reached t Infinity = False"
| "reached t NaN = False"

text \<open>
  \<^verbatim>\<open>currentTime += interval\<close> on doubles: the sum is exact below \<open>2^53\<close>, and
  \<open>2^53 + 1\<close> rounds back to \<open>2^53\<close>.
\<close>

definition advance :: "nat \<Rightarrow> nat" where
  "advance t = (if t < 2 ^ 53 then t + interval else t)"

text \<open>
  \<^verbatim>\<open>Math.min(maxFrames, Math.floor(duration))\<close>; \<open>None\<close> is NaN. The result is printed
  in plain decimal, as JavaScript prints an integer below \<open>10^21\<close> in magnitude; the
  duration of a media element is never negative.
\<close>

fun progress_total :: "js_number \<Rightarrow> int option" where
  "progress_total (Finite d) = Some (min (int maxFrames) \<lfloor>d\<rfloor>)"
| "progress_total Infinity = Some (int maxFrames)"
| "progress_total NaN = None"

definition progress_message :: "nat \<Rightarrow> js_number \<Rightarrow> string" where
  "progress_message n duration =
     ''Extracting frames... '' @ show_nat n @ ''/'' @
     (case progress_total duration of None \<Rightarrow> ''NaN'' | Some z \<Rightarrow> show_int z)"

definition captureFrame :: "js_number \<Rightarrow> sampler \<Rightarrow> sampler" where
  "captureFrame duration s =
     (if reached (currentTime s) duration \<or> maxFrames \<le> frameCount s
      then settle (Resolved (frames s)) (emit RevokeObjectURL s)
      else emit (SeekTo (currentTime s)) (s\<lparr>video_currentTime := currentTime s\<rparr>))"

definition onseeked :: "bool \<Rightarrow> video_file \<Rightarrow> js_number \<Rightarrow> sampler \<Rightarrow> sampler" where
  "onseeked has_ctx v duration s =
     (let s1 = (if has_ctx
                then (let s' = emit (DrawImage (video_currentTime s)) s;
                          s'' = s'\<lparr>frames := frames s' @ [picture v (video_currentTime s')],
                                    frameCount := frameCount s' + 1\<rparr>
                      in emit (SetProgress (progress_message (frameCount s'') duration)) s'')
                else s)
      in captureFrame duration (s1\<lparr>currentTime := advance (currentTime s1)\<rparr>))"

definition onloadedmetadata :: "video_file \<Rightarrow> js_number \<Rightarrow> sampler \<Rightarrow> sampler" where
  "onloadedmetadata v duration s =
     captureFrame duration
       ((emit (SetCanvasSize (videoWidth v) (videoHeight v)) s)
          \<lparr>currentTime := 0, frameCount := 0\<rparr>)"

definition onerror :: "sampler \<Rightarrow> sampler" where
  "onerror s = settle (Rejected (Error ''Error loading video file.'')) (emit RevokeObjectURL s)"

text \<open>
  The video element after \<^verbatim>\<open>loadedmetadata\<close>: while the promise is pending a seek is
  outstanding, and the element answers seek number \<open>n\<close> with \<^verbatim>\<open>seeked\<close> or, at
  \<open>decode_error_at\<close>, with \<^verbatim>\<open>error\<close>. The execution is over when the promise is
  settled. Without a drawing context and with an unbounded duration no call of
  \<^verbatim>\<open>captureFrame\<close> ever settles it, so the loop is partial.
\<close>

partial_function (option) seek_loop ::
  "bool \<Rightarrow> video_file \<Rightarrow> js_number \<Rightarrow> nat \<Rightarrow> sampler \<Rightarrow> sampler option" where
  "seek_loop has_ctx v duration n s =
     (if promise s \<noteq> Pending then Some s
      else if decode_error_at v = Some n then Some (onerror s)
      else seek_loop has_ctx v duration (n + 1) (onseeked has_ctx v duration s))"

declare seek_loop.simps [code]

definition extractFrames :: "refs \<Rightarrow> video_file \<Rightarrow> sampler option" where
  "extractFrames r v =
     (if \<not> videoRef r \<or> \<not> canvasRef r
      then Some (settle (Rejected (Error ''Video or canvas element not ready.'')) init)
      else (let s = emit SetSrc (emit CreateObjectURL init)
            in case metadata v of
                 None \<Rightarrow> Some (onerror s)
               | Some duration \<Rightarrow>
                   seek_loop (ctx r) v duration 0 (onloadedmetadata v duration s)))"

text \<open>
  The caller, \<^verbatim>\<open>handleSubmit\<close>, awaits the promise and rejects an empty sequence itself
  before any analysis request is built. Awaiting a promise that never settles does not
  return.
\<close>

definition handleSubmit_frames :: "refs \<Rightarrow> video_file \<Rightarrow> (js_error + string list) option" where
  "handleSubmit_frames r v =
     (case extractFrames r v of
        None \<Rightarrow> None
      | Some s \<Rightarrow>
          (case promise s of
             Pending \<Rightarrow> None
           | Rejected err \<Rightarrow> Some (Inl err)
           | Resolved fs \<Rightarrow>
               if length fs = 0
               then Some (Inl (Error ''Could not extract any frames from the video.''))
               else Some (Inr fs)))"

section \<open>Asynchronous job poller: \<^verbatim>\<open>handleVideoOperation\<close>\<close>

text \<open>
  The operation handle as the poller reads it: \<^verbatim>\<open>done\<close> (absent counts as false), the
  optional \<^verbatim>\<open>error\<close> object with its \<^verbatim>\<open>message\<close>, and the result payload down to
  \<^verbatim>\<open>response?.generatedVideos?.[0]?.video?.uri\<close>.
\<close>

record video_ref =
  uri :: "string option"

record generated_video =
  video :: "video_ref option"

record videos_response =
  generatedVideos :: "generated_video list option"

record operation_error =
  message :: "string option"

record operation =
  op_done :: bool
  op_error :: "operation_error option"
  op_response :: "videos_response option"

record http_response =
  ok :: bool
  statusText :: string
  body_text :: string
  body_blob :: string

text \<open>
  What the poller calls: the environment variable, the submit closure
  \<^verbatim>\<open>getOperation\<close>, the status query (which may answer call number \<open>n\<close> and the handle
  it is given as it likes), \<^verbatim>\<open>fetch\<close> and \<^verbatim>\<open>URL.createObjectURL\<close>. A rejected promise
  is \<open>Inl\<close>.
\<close>

record provider =
  API_KEY :: "string option"
  getOperation :: "js_error + operation"
  getVideosOperation :: "nat \<Rightarrow> operation \<Rightarrow> js_error + operation"
  fetch :: "string \<Rightarrow> js_error + http_response"
  createObjectURL :: "string \<Rightarrow> string"

datatype poller_effect =
    OnProgress string
  | CallGetOperation
  | SetTimeout nat
  | CallGetVideosOperation
  | CallFetch string
  | CallCreateObjectURL

definition starting :: "poller_effect list" where
  "starting = [OnProgress ''Starting video generation operation...'', CallGetOperation]"

definition waiting :: "poller_effect list" where
  "waiting = starting @
     [OnProgress
        ''Operation initiated. Waiting for video to be processed. This can take several minutes.'']"

definition round :: "poller_effect list" where
  "round = [SetTimeout 10000, OnProgress ''Checking video status...'', CallGetVideosOperation]"

text \<open>
  The \<^verbatim>\<open>while (!operation.done)\<close> loop, with the number of queries made so far and the
  log of calls. Nothing bounds the number of rounds.
\<close>

partial_function (option) poll ::
  "provider \<Rightarrow> nat \<Rightarrow> operation \<Rightarrow> poller_effect list \<Rightarrow>
     (poller_effect list \<times> (js_error + operation)) option" where
  "poll p n operation tr =
     (if op_done operation then Some (tr, Inr operation)
      else (case getVideosOperation p n operation of
              Inl err \<Rightarrow> Some (tr @ round, Inl err)
            | Inr operation' \<Rightarrow> poll p (n + 1) operation' (tr @ round)))"

declare poll.simps [code]

definition downloadLink :: "operation \<Rightarrow> string option" where
  "downloadLink operation =
     (case op_response operation of
        None \<Rightarrow> None
      | Some response \<Rightarrow>
          (case generatedVideos response of
             None \<Rightarrow> None
           | Some [] \<Rightarrow> None
           | Some (g # _) \<Rightarrow>
               (case video g of
                  None \<Rightarrow> None
                | Some vd \<Rightarrow> uri vd)))"

definition handleVideoOperation ::
  "provider \<Rightarrow> (poller_effect list \<times> (js_error + string)) option" where
  "handleVideoOperation p =
     (if \<not> truthy (API_KEY p)
      then Some ([], Inl (Error ''API_KEY environment variable is not set''))
      else
        (case getOperation p of
           Inl err \<Rightarrow> Some (starting, Inl err)
         | Inr operation0 \<Rightarrow>
             (case poll p 0 operation0 waiting of
                None \<Rightarrow> None
              | Some (tr, Inl err) \<Rightarrow> Some (tr, Inl err)
              | Some (tr, Inr operation) \<Rightarrow>
                  (case op_error operation of
                     Some e \<Rightarrow>
                       Some (tr, Inl (Error (''Video generation failed: '' @ js_string (message e))))
                   | None \<Rightarrow>
                       if \<not> truthy (downloadLink operation)
                       then Some (tr, Inl (Error ''Could not retrieve video download link.''))
                       else
                         (let url = js_string (downloadLink operation) @ ''&key='' @
                                    js_string (API_KEY p);
                              tr' = tr @ [OnProgress ''Video generated! Downloading video data...'',
                                          CallFetch url]
                          in case fetch p url of
                               Inl err \<Rightarrow> Some (tr', Inl err)
                             | Inr response \<Rightarrow>
                                 if \<not> ok response
                                 then Some (tr', Inl (Error (''Failed to download video: '' @
                                        statusText response @ ''. Details: '' @
                                        body_text response)))
                                 else Some (tr' @ [OnProgress ''Download complete.'',
                                                   CallCreateObjectURL],
                                            Inr (createObjectURL p (body_blob response))))))))"

section \<open>Provider requests: \<^verbatim>\<open>editImage\<close>, \<^verbatim>\<open>analyzeImage\<close>, \<^verbatim>\<open>analyzeVideoFrames\<close>\<close>

record inline_data =
  data :: "string option"
  mimeType :: "string option"

record part =
  inlineData :: "inline_data option"
  part_text :: "string option"

datatype modality = IMAGE

record request =
  model :: string
  parts :: "part list"
  responseModalities :: "modality list option"

record content =
  content_parts :: "part list option"

record candidate =
  candidate_content :: "content option"

record response =
  candidates :: "candidate list option"
  response_text :: "string option"

record js_file =
  file_type :: string
  file_name :: string

text \<open>The file reader of the browser and the provider's \<^verbatim>\<open>generateContent\<close> call.\<close>

record genai =
  readAsDataURL :: "js_file \<Rightarrow> js_error + string"
  generateContent :: "request \<Rightarrow> js_error + response"

definition fileToBase64 :: "genai \<Rightarrow> js_file \<Rightarrow> js_error + string option" where
  "fileToBase64 g f =
     (case readAsDataURL g f of
        Inl err \<Rightarrow> Inl err
      | Inr result \<Rightarrow> Inr (second (split_comma result)))"

definition fileToGenerativePart :: "genai \<Rightarrow> js_file \<Rightarrow> js_error + part" where
  "fileToGenerativePart g f =
     (case fileToBase64 g f of
        Inl err \<Rightarrow> Inl err
      | Inr base64Data \<Rightarrow>
          Inr \<lparr>inlineData = Some \<lparr>data = base64Data, mimeType = Some (file_type f)\<rparr>,
               part_text = None\<rparr>)"

definition text_part :: "string \<Rightarrow> part" where
  "text_part t = \<lparr>inlineData = None, part_text = Some t\<rparr>"

text \<open>
  \<^verbatim>\<open>response.candidates[0].content.parts\<close>, as the \<^verbatim>\<open>for ... of\<close> loop needs it: a missing
  link of the chain raises a \<^verbatim>\<open>TypeError\<close>.
\<close>

definition first_parts :: "response \<Rightarrow> js_error + part list" where
  "first_parts r =
     (case candidates r of
        None \<Rightarrow> Inl TypeError
      | Some [] \<Rightarrow> Inl TypeError
      | Some (c # _) \<Rightarrow>
          (case candidate_content c of
             None \<Rightarrow> Inl TypeError
           | Some ct \<Rightarrow>
               (case content_parts ct of
                  None \<Rightarrow> Inl TypeError
                | Some ps \<Rightarrow> Inr ps)))"

text \<open>The loop over the parts with its \<^verbatim>\<open>return\<close>, and the \<^verbatim>\<open>throw\<close> after it.\<close>

fun first_image :: "part list \<Rightarrow> js_error + string" where
  "first_image [] = Inl (Error ''No image generated'')"
| "first_image (p # ps) =
     (case inlineData p of
        Some d \<Rightarrow> Inr (''data:image/png;base64,'' @ js_string (data d))
      | None \<Rightarrow> first_image ps)"

definition editImage_request :: "string \<Rightarrow> part \<Rightarrow> request" where
  "editImage_request prompt imagePart =
     \<lparr>model = ''gemini-2.5-flash-image'', parts = [imagePart, text_part prompt],
      responseModalities = Some [IMAGE]\<rparr>"

definition editImage :: "genai \<Rightarrow> string \<Rightarrow> js_file \<Rightarrow> js_error + string" where
  "editImage g prompt imageFile =
     (case fileToGenerativePart g imageFile of
        Inl err \<Rightarrow> Inl err
      | Inr imagePart \<Rightarrow>
          (case generateContent g (editImage_request prompt imagePart) of
             Inl err \<Rightarrow> Inl err
           | Inr r \<Rightarrow>
               (case first_parts r of
                  Inl err \<Rightarrow> Inl err
                | Inr ps \<Rightarrow> first_image ps)))"

text \<open>\<^verbatim>\<open>prompt || fallback\<close>: the empty string is the only falsy string.\<close>

definition or_default :: "string \<Rightarrow> string \<Rightarrow> string" where
  "or_default prompt fallback = (if prompt \<noteq> [] then prompt else fallback)"

definition analyzeImage_request :: "string \<Rightarrow> part \<Rightarrow> request" where
  "analyzeImage_request prompt imagePart =
     (let fullPrompt = or_default prompt ''Analyze this image in detail.''
      in \<lparr>model = ''gemini-2.5-flash'', parts = [text_part fullPrompt, imagePart],
          responseModalities = None\<rparr>)"

definition analyzeImage :: "genai \<Rightarrow> string \<Rightarrow> js_file \<Rightarrow> js_error + string option" where
  "analyzeImage g prompt imageFile =
     (case fileToGenerativePart g imageFile of
        Inl err \<Rightarrow> Inl err
      | Inr imagePart \<Rightarrow>
          (case generateContent g (analyzeImage_request prompt imagePart) of
             Inl err \<Rightarrow> Inl err
           | Inr r \<Rightarrow> Inr (response_text r)))"

definition frame_part :: "string \<Rightarrow> part" where
  "frame_part frameData =
     \<lparr>inlineData = Some \<lparr>data = second (split_comma frameData),
                          mimeType = Some ''image/jpeg''\<rparr>,
      part_text = None\<rparr>"

definition analyzeVideoFrames_request :: "string \<Rightarrow> string list \<Rightarrow> request" where
  "analyzeVideoFrames_request prompt frameList =
     (let fullPrompt = or_default prompt
            ''These are sequential frames from a video. Analyze the video and describe what is happening.'';
          imageParts = map frame_part frameList
      in \<lparr>model = ''gemini-2.5-pro'', parts = text_part fullPrompt # imageParts,
          responseModalities = None\<rparr>)"

definition analyzeVideoFrames ::
  "genai \<Rightarrow> string \<Rightarrow> string list \<Rightarrow> js_error + string option" where
  "analyzeVideoFrames g prompt frameList =
     (case generateContent g (analyzeVideoFrames_request prompt frameList) of
        Inl err \<Rightarrow> Inl err
      | Inr r \<Rightarrow> Inr (response_text r))"

section \<open>Descriptions of runs\<close>

subsection \<open>Frame sampler\<close>

text \<open>The calls that belong to a capture: drawing the picture and reporting progress.\<close>

fun is_capture :: "sampler_effect \<Rightarrow> bool" where
  "is_capture (DrawImage t) = True"
| "is_capture (SetProgress m) = True"
| "is_capture x = False"

text \<open>The timeline positions at which pictures were drawn, in order.\<close>

fun capture_positions :: "sampler_effect list \<Rightarrow> nat list" where
  "capture_positions [] = []"
| "capture_positions (DrawImage t # xs) = t # capture_positions xs"
| "capture_positions (x # xs) = capture_positions xs"

text \<open>
  What holds of the sampler's state from \<^verbatim>\<open>loadedmetadata\<close> on, whatever the video and
  whether or not there is a drawing context.
\<close>

definition sampler_inv :: "bool \<Rightarrow> sampler \<Rightarrow> bool" where
  "sampler_inv has_ctx s \<longleftrightarrow>
     length (frames s) = frameCount s \<and> frameCount s \<le> maxFrames \<and>
     (promise s = Pending \<longrightarrow>
        count_list (effects s) RevokeObjectURL = 0 \<and> frameCount s < maxFrames) \<and>
     (promise s \<noteq> Pending \<longrightarrow> count_list (effects s) RevokeObjectURL = 1) \<and>
     (\<forall>fs. promise s = Resolved fs \<longrightarrow> fs = frames s) \<and>
     count_list (effects s) CreateObjectURL = 1 \<and>
     (\<not> has_ctx \<longrightarrow> frames s = [] \<and> (\<forall>x \<in> set (effects s). \<not> is_capture x))"

text \<open>
  The calls of the first \<open>n\<close> captures: seek to \<open>k * interval\<close>, draw, report \<open>k + 1\<close>
  frames.
\<close>

definition captures :: "js_number \<Rightarrow> nat \<Rightarrow> sampler_effect list" where
  "captures d n =
     concat (map (\<lambda>k. [SeekTo (k * interval), DrawImage (k * interval),
                        SetProgress (progress_message (k + 1) d)]) [0..<n])"

definition loaded :: "video_file \<Rightarrow> sampler_effect list" where
  "loaded v = [CreateObjectURL, SetSrc, SetCanvasSize (videoWidth v) (videoHeight v)]"

text \<open>With a drawing context: the state while seek \<open>j\<close> is outstanding.\<close>

definition seeking :: "video_file \<Rightarrow> js_number \<Rightarrow> nat \<Rightarrow> sampler" where
  "seeking v d j =
     \<lparr>frames = map (\<lambda>k. picture v (k * interval)) [0..<j],
      currentTime = j * interval, frameCount = j, video_currentTime = j * interval,
      promise = Pending,
      effects = loaded v @ captures d j @ [SeekTo (j * interval)]\<rparr>"

text \<open>With a drawing context: the state after the promise resolved with \<open>n\<close> frames.\<close>

definition finished :: "video_file \<Rightarrow> js_number \<Rightarrow> nat \<Rightarrow> sampler" where
  "finished v d n =
     \<lparr>frames = map (\<lambda>k. picture v (k * interval)) [0..<n],
      currentTime = n * interval, frameCount = n, video_currentTime = (n - 1) * interval,
      promise = Resolved (map (\<lambda>k. picture v (k * interval)) [0..<n]),
      effects = loaded v @ captures d n @ [RevokeObjectURL]\<rparr>"

text \<open>\<open>min(maxFrames, ceil(duration / interval))\<close> on JavaScript numbers.\<close>

fun frame_total :: "js_number \<Rightarrow> nat" where
  "frame_total (Finite D) = min maxFrames (nat \<lceil>D / real interval\<rceil>)"
| "frame_total Infinity = maxFrames"
| "frame_total NaN = maxFrames"

definition outcome :: "video_file \<Rightarrow> js_number \<Rightarrow> sampler" where
  "outcome v d =
     (case decode_error_at v of
        None \<Rightarrow> finished v d (frame_total d)
      | Some e \<Rightarrow>
          if e < frame_total d then onerror (seeking v d e) else finished v d (frame_total d))"

subsection \<open>Example inputs\<close>

definition still :: "nat \<Rightarrow> string" where
  "still t = ''data:image/jpeg;base64,'' @ show_nat t"

definition clip :: "real \<Rightarrow> video_file" where
  "clip D = \<lparr>metadata = Some (Finite D), videoWidth = 640, videoHeight = 360,
             decode_error_at = None, picture = still\<rparr>"

definition mounted :: refs where
  "mounted = \<lparr>videoRef = True, canvasRef = True, ctx = True\<rparr>"

text \<open>The run on a clip of 3.4 seconds.\<close>

definition clip_run :: sampler where
  "clip_run =
     \<lparr>frames = [still 0, still 1, still 2, still 3],
      currentTime = 4, frameCount = 4, video_currentTime = 3,
      promise = Resolved [still 0, still 1, still 2, still 3],
      effects =
        [CreateObjectURL, SetSrc, SetCanvasSize 640 360,
         SeekTo 0, DrawImage 0, SetProgress ''Extracting frames... 1/3'',
         SeekTo 1, DrawImage 1, SetProgress ''Extracting frames... 2/3'',
         SeekTo 2, DrawImage 2, SetProgress ''Extracting frames... 3/3'',
         SeekTo 3, DrawImage 3, SetProgress ''Extracting frames... 4/3'',
         RevokeObjectURL]\<rparr>"

definition pending_op :: operation where
  "pending_op = \<lparr>op_done = False, op_error = None, op_response = None\<rparr>"

definition ready_op :: operation where
  "ready_op = \<lparr>op_done = True, op_error = None,
     op_response = Some \<lparr>generatedVideos =
       Some [\<lparr>video = Some \<lparr>uri = Some ''https://videos.example/v1?alt=media''\<rparr>\<rparr>]\<rparr>\<rparr>"

definition failed_op :: operation where
  "failed_op = \<lparr>op_done = True, op_error = Some \<lparr>message = Some ''X''\<rparr>,
     op_response = None\<rparr>"

definition empty_op :: operation where
  "empty_op = \<lparr>op_done = True, op_error = None,
     op_response = Some \<lparr>generatedVideos = Some []\<rparr>\<rparr>"

text \<open>A status query that answers "not done" to its first \<open>k\<close> calls and \<open>final\<close> after.\<close>

definition stub :: "nat \<Rightarrow> operation \<Rightarrow> nat \<Rightarrow> operation \<Rightarrow> js_error + operation" where
  "stub k final n h = Inr (if n < k then pending_op else final)"

definition download_ok :: "string \<Rightarrow> js_error + http_response" where
  "download_ok url =
     Inr \<lparr>ok = True, statusText = ''OK'', body_text = [], body_blob = ''mp4''\<rparr>"

definition blob_url :: "string \<Rightarrow> string" where
  "blob_url b = ''blob:'' @ b"

definition service :: "nat \<Rightarrow> operation \<Rightarrow> provider" where
  "service k final =
     \<lparr>API_KEY = Some ''KEY'', getOperation = Inr pending_op,
      getVideosOperation = stub k final, fetch = download_ok, createObjectURL = blob_url\<rparr>"

definition reader :: "js_file \<Rightarrow> js_error + string" where
  "reader f = Inr (''data:'' @ file_type f @ '';base64,QUJD'')"

definition jpeg_reply :: "request \<Rightarrow> js_error + response" where
  "jpeg_reply q =
     Inr \<lparr>candidates = Some [\<lparr>candidate_content = Some \<lparr>content_parts = Some
             [text_part ''Here is the edited image.'',
              \<lparr>inlineData = Some \<lparr>data = Some ''/9j/4AAQ'', mimeType = Some ''image/jpeg''\<rparr>,
               part_text = None\<rparr>]\<rparr>\<rparr>],
          response_text = Some ''Here is the edited image.''\<rparr>"

definition text_reply :: "request \<Rightarrow> js_error + response" where
  "text_reply q =
     Inr \<lparr>candidates = Some [\<lparr>candidate_content = Some \<lparr>content_parts = Some
             [text_part ''I cannot edit this image.'']\<rparr>\<rparr>],
          response_text = Some ''I cannot edit this image.''\<rparr>"

text \<open>A reply without any candidate.\<close>

definition empty_reply :: "request \<Rightarrow> js_error + response" where
  "empty_reply q = Inr \<lparr>candidates = Some [], response_text = None\<rparr>"

text \<open>A provider that answers with the text of the first part of the request it was sent.\<close>

definition echo :: "request \<Rightarrow> js_error + response" where
  "echo q =
     Inr \<lparr>candidates = None,
          response_text = (case parts q of [] \<Rightarrow> None | p # _ \<Rightarrow> part_text p)\<rparr>"

definition photo :: js_file where
  "photo = \<lparr>file_type = ''image/png'', file_name = ''photo.png''\<rparr>"

section \<open>Frame sampler: proofs\<close>

subsection \<open>What every run keeps\<close>

lemma inv_captureFrame:
  assumes "length (frames s) = frameCount s" "frameCount s \<le> maxFrames"
    "promise s = Pending" "count_list (effects s) RevokeObjectURL = 0"
    "count_list (effects s) CreateObjectURL = 1"
    "\<not> has_ctx \<longrightarrow> frames s = [] \<and> (\<forall>x \<in> set (effects s). \<not> is_capture x)"
  shows "sampler_inv has_ctx (captureFrame d s)"
  using assms by (auto simp: sampler_inv_def captureFrame_def settle_def emit_def)

lemma inv_start: "sampler_inv c (emit SetSrc (emit CreateObjectURL init))"
  by (simp add: sampler_inv_def emit_def init_def maxFrames_def)

lemma pending_start: "promise (emit SetSrc (emit CreateObjectURL init)) = Pending"
  by (simp add: emit_def init_def)

lemma inv_onloadedmetadata:
  "sampler_inv c (onloadedmetadata v d (emit SetSrc (emit CreateObjectURL init)))"
  unfolding onloadedmetadata_def
  by (rule inv_captureFrame) (simp_all add: emit_def init_def)

lemma inv_onseeked:
  assumes "sampler_inv c s" "promise s = Pending"
  shows "sampler_inv c (onseeked c v d s)"
  unfolding onseeked_def Let_def
  using assms by (intro inv_captureFrame) (auto simp: sampler_inv_def emit_def)

lemma inv_onerror:
  assumes "sampler_inv c s" "promise s = Pending"
  shows "sampler_inv c (onerror s) \<and> promise (onerror s) \<noteq> Pending"
  using assms by (auto simp: sampler_inv_def onerror_def settle_def emit_def)

lemma seek_loop_inv:
  assumes "seek_loop c v d n s = Some s'"
  shows "sampler_inv c s \<Longrightarrow> sampler_inv c s' \<and> promise s' \<noteq> Pending"
  using assms
proof (induction c v d n s s' rule: seek_loop.raw_induct [rotated 1, consumes 1])
  case (1 loop c v d n s s')
  note IH = 1(1) and eq = 1(2) and inv = 1(3)
  show ?case
  proof (cases "promise s = Pending")
    case False
    with eq inv show ?thesis by auto
  next
    case p: True
    show ?thesis
    proof (cases "decode_error_at v = Some n")
      case True
      with p eq inv_onerror [OF inv p] show ?thesis by auto
    next
      case False
      with p eq have "loop c v d (n + 1) (onseeked c v d s) = Some s'" by simp
      then show ?thesis
        using IH inv_onseeked [OF inv p] by blast
    qed
  qed
qed

text \<open>With a drawing context every answered seek adds a frame, so the loop ends.\<close>

lemma seek_loop_terminates:
  assumes "sampler_inv True s"
  shows "\<exists>s'. seek_loop True v d n s = Some s'"
  using assms
proof (induction "maxFrames - frameCount s" arbitrary: s n rule: less_induct)
  case less
  show ?case
  proof (cases "promise s = Pending")
    case False
    then show ?thesis by (subst seek_loop.simps) simp
  next
    case p: True
    show ?thesis
    proof (cases "decode_error_at v = Some n")
      case True
      with p show ?thesis by (subst seek_loop.simps) simp
    next
      case False
      let ?t = "onseeked True v d s"
      have inv': "sampler_inv True ?t" by (rule inv_onseeked [OF less.prems p])
      have "frameCount ?t = frameCount s + 1"
        by (simp add: onseeked_def Let_def captureFrame_def settle_def emit_def)
      moreover have "frameCount s < maxFrames"
        using less.prems p by (simp add: sampler_inv_def)
      ultimately have "maxFrames - frameCount ?t < maxFrames - frameCount s" by simp
      from less.hyps [OF this inv'] obtain s' where "seek_loop True v d (n + 1) ?t = Some s'"
        by blast
      with p False show ?thesis by (subst seek_loop.simps) simp
    qed
  qed
qed

lemma extractFrames_not_ready:
  assumes "\<not> (videoRef r \<and> canvasRef r)"
  shows "extractFrames r v =
           Some (init\<lparr>promise := Rejected (Error ''Video or canvas element not ready.'')\<rparr>)"
  using assms by (auto simp: extractFrames_def settle_def init_def)

lemma not_ready_rejected:
  assumes "\<not> (videoRef r \<and> canvasRef r)" "extractFrames r v = Some s"
  shows "promise s = Rejected (Error ''Video or canvas element not ready.'') \<and>
         frames s = [] \<and> effects s = []"
  using assms by (auto simp: extractFrames_not_ready init_def)

lemma extractFrames_unreadable:
  assumes "videoRef r" "canvasRef r" "metadata v = None"
  shows "extractFrames r v = Some (onerror (emit SetSrc (emit CreateObjectURL init)))"
  using assms by (simp add: extractFrames_def)

lemma extractFrames_inv:
  assumes "videoRef r" "canvasRef r" "extractFrames r v = Some s"
  shows "sampler_inv (ctx r) s \<and> promise s \<noteq> Pending"
proof (cases "metadata v")
  case None
  then have "s = onerror (emit SetSrc (emit CreateObjectURL init))"
    using assms by (simp add: extractFrames_def)
  then show ?thesis
    using inv_onerror [OF inv_start pending_start] by simp
next
  case (Some d)
  then have "seek_loop (ctx r) v d 0 (onloadedmetadata v d (emit SetSrc (emit CreateObjectURL init)))
               = Some s"
    using assms by (simp add: extractFrames_def)
  then show ?thesis
    by (rule seek_loop_inv) (rule inv_onloadedmetadata)
qed

lemma extractFrames_returns:
  assumes "ctx r"
  shows "\<exists>s. extractFrames r v = Some s"
proof (cases "videoRef r \<and> canvasRef r")
  case False
  then show ?thesis by (simp add: extractFrames_not_ready)
next
  case True
  show ?thesis
  proof (cases "metadata v")
    case None
    with True show ?thesis by (simp add: extractFrames_def)
  next
    case (Some d)
    with True assms seek_loop_terminates [OF inv_onloadedmetadata, of v d 0] show ?thesis
      by (simp add: extractFrames_def)
  qed
qed

subsection \<open>Runs that never settle\<close>

text \<open>
  Without a drawing context no frame is counted, so only the duration can end the
  sampling; for a duration of infinity or NaN the element is asked to seek for ever.
\<close>

lemma onseeked_no_ctx_unbounded:
  assumes "promise s = Pending" "frameCount s < maxFrames" "d = Infinity \<or> d = NaN"
  shows "promise (onseeked False v d s) = Pending \<and>
         frameCount (onseeked False v d s) = frameCount s"
  using assms by (auto simp: onseeked_def captureFrame_def emit_def)

lemma seek_loop_never_settles:
  assumes "seek_loop c v d n s = Some s'"
  shows "\<not> c \<Longrightarrow> promise s = Pending \<Longrightarrow> frameCount s < maxFrames \<Longrightarrow>
         d = Infinity \<or> d = NaN \<Longrightarrow> decode_error_at v = None \<Longrightarrow> False"
  using assms
proof (induction c v d n s s' rule: seek_loop.raw_induct [rotated 1, consumes 1])
  case (1 loop c v d n s s')
  note IH = 1(1) and eq = 1(2) and no_ctx = 1(3) and pend = 1(4) and few = 1(5)
    and unbounded = 1(6) and healthy = 1(7)
  from eq pend healthy no_ctx have "loop False v d (n + 1) (onseeked False v d s) = Some s'"
    by simp
  moreover note onseeked_no_ctx_unbounded [OF pend few unbounded, of v]
  ultimately show ?case
    using IH [of False v d "n + 1" "onseeked False v d s" s'] few unbounded healthy by simp
qed

lemma extractFrames_never_settles:
  assumes "videoRef r" "canvasRef r" "\<not> ctx r" "metadata v = Some d" "d = Infinity \<or> d = NaN"
    "decode_error_at v = None"
  shows "extractFrames r v = None"
proof (rule ccontr)
  let ?s = "onloadedmetadata v d (emit SetSrc (emit CreateObjectURL init))"
  assume "extractFrames r v \<noteq> None"
  then obtain s' where "extractFrames r v = Some s'" by blast
  with assms have run: "seek_loop False v d 0 ?s = Some s'"
    by (simp add: extractFrames_def)
  have "promise ?s = Pending" "frameCount ?s < maxFrames"
    using assms(5)
    by (auto simp: onloadedmetadata_def captureFrame_def emit_def init_def maxFrames_def)
  from seek_loop_never_settles [OF run _ this assms(5,6)] show False by simp
qed

subsection \<open>The run with a drawing context, in closed form\<close>

lemma captures_Suc:
  "captures d (Suc j) =
     captures d j @ [SeekTo (j * interval), DrawImage (j * interval),
                     SetProgress (progress_message (Suc j) d)]"
  by (simp add: captures_def)

lemma reached_total: "(reached t d \<or> maxFrames \<le> t) \<longleftrightarrow> \<not> t < frame_total d"
  by (cases d) (auto simp: interval_def less_ceiling_iff zless_nat_eq_int_zless)

lemma frame_total_le: "frame_total d \<le> maxFrames"
  by (cases d) simp_all

lemma onloadedmetadata_seeking:
  "onloadedmetadata v d (emit SetSrc (emit CreateObjectURL init)) =
     (if 0 < frame_total d then seeking v d 0 else finished v d 0)"
  using reached_total [of 0 d]
  by (auto simp: onloadedmetadata_def captureFrame_def emit_def init_def settle_def
      seeking_def finished_def loaded_def captures_def maxFrames_def)

lemma onseeked_seeking:
  assumes "j < frame_total d"
  shows "onseeked True v d (seeking v d j) =
           (if j + 1 < frame_total d then seeking v d (j + 1) else finished v d (j + 1))"
proof -
  have "j < maxFrames" using assms frame_total_le [of d] by simp
  then have adv: "advance j = j + 1"
    by (simp add: advance_def maxFrames_def interval_def)
  show ?thesis
    using reached_total [of "j + 1" d]
    by (auto simp: onseeked_def Let_def captureFrame_def emit_def settle_def adv
        seeking_def finished_def captures_Suc interval_def)
qed

lemma seek_loop_seeking:
  assumes "j < frame_total d" "\<And>e. decode_error_at v = Some e \<Longrightarrow> j \<le> e"
  shows "seek_loop True v d j (seeking v d j) = Some (outcome v d)"
  using assms
proof (induction "frame_total d - j" arbitrary: j rule: less_induct)
  case less
  have pend: "promise (seeking v d j) = Pending" by (simp add: seeking_def)
  show ?case
  proof (cases "decode_error_at v = Some j")
    case True
    with less.prems pend show ?thesis
      by (subst seek_loop.simps) (simp add: outcome_def)
  next
    case False
    then have later: "\<And>e. decode_error_at v = Some e \<Longrightarrow> j + 1 \<le> e"
      using less.prems(2) by (metis Suc_eq_plus1 Suc_leI le_neq_implies_less)
    show ?thesis
    proof (cases "j + 1 < frame_total d")
      case True
      have "seek_loop True v d (j + 1) (seeking v d (j + 1)) = Some (outcome v d)"
        using less.hyps [of "j + 1"] True later by simp
      with False pend True less.prems(1) show ?thesis
        by (subst seek_loop.simps) (simp add: onseeked_seeking)
    next
      case last: False
      with less.prems(1) have n: "frame_total d = j + 1" by simp
      have "outcome v d = finished v d (j + 1)"
        using later n by (auto simp: outcome_def split: option.splits)
      moreover have "seek_loop True v d (j + 1) (finished v d (j + 1)) = Some (finished v d (j + 1))"
        by (subst seek_loop.simps) (simp add: finished_def)
      ultimately show ?thesis
        using False pend last less.prems(1)
        by (subst seek_loop.simps) (simp add: onseeked_seeking)
    qed
  qed
qed

lemma extractFrames_outcome:
  assumes "videoRef r" "canvasRef r" "ctx r" "metadata v = Some d"
  shows "extractFrames r v = Some (outcome v d)"
proof (cases "0 < frame_total d")
  case True
  then show ?thesis
    using assms seek_loop_seeking [of 0 d v]
    by (simp add: extractFrames_def onloadedmetadata_seeking)
next
  case False
  then have "outcome v d = finished v d 0"
    by (auto simp: outcome_def split: option.splits)
  moreover have "seek_loop True v d 0 (finished v d 0) = Some (finished v d 0)"
    by (subst seek_loop.simps) (simp add: finished_def)
  ultimately show ?thesis
    using assms False by (simp add: extractFrames_def onloadedmetadata_seeking)
qed

lemma outcome_cases:
  "outcome v d = finished v d (frame_total d) \<or>
   (\<exists>e < frame_total d. outcome v d = onerror (seeking v d e))"
  by (cases "decode_error_at v") (auto simp: outcome_def)

text \<open>A duration of infinity or NaN is sampled up to the cap.\<close>

lemma extractFrames_unbounded_duration:
  assumes "videoRef r" "canvasRef r" "ctx r" "metadata v = Some d" "d = Infinity \<or> d = NaN"
    "decode_error_at v = None"
  shows "\<exists>s fs. extractFrames r v = Some s \<and> promise s = Resolved fs \<and>
           length fs = maxFrames"
proof -
  have "extractFrames r v = Some (finished v d maxFrames)"
    using assms extractFrames_outcome [of r v d] by (auto simp: outcome_def)
  then show ?thesis by (simp add: finished_def)
qed

lemma capture_positions_append:
  "capture_positions (xs @ ys) = capture_positions xs @ capture_positions ys"
  by (induction xs rule: capture_positions.induct) simp_all

lemma capture_positions_none:
  "\<forall>x \<in> set xs. \<not> is_capture x \<Longrightarrow> capture_positions xs = []"
  by (induction xs rule: capture_positions.induct) simp_all

lemma capture_positions_captures:
  "capture_positions (captures d n) = map (\<lambda>k. k * interval) [0..<n]"
  by (induction n) (simp_all add: captures_def capture_positions_append)

lemma sorted_positions: "sorted_wrt (<) (map (\<lambda>k. k * interval) [0..<n])"
  by (simp add: interval_def)

subsection \<open>Two runs, evaluated\<close>

lemma run_clip: "extractFrames mounted (clip 3.4) = Some clip_run"
  by (simp add: extractFrames_def mounted_def clip_def clip_run_def seek_loop.simps
      onloadedmetadata_def onseeked_def captureFrame_def emit_def settle_def init_def
      advance_def interval_def maxFrames_def progress_message_def show_int_def
      show_nat.simps Let_def still_def)

lemma run_empty:
  "extractFrames mounted (clip 0) = Some
     \<lparr>frames = [], currentTime = 0, frameCount = 0, video_currentTime = 0,
      promise = Resolved [],
      effects = [CreateObjectURL, SetSrc, SetCanvasSize 640 360, RevokeObjectURL]\<rparr>"
  by (simp add: extractFrames_def mounted_def clip_def seek_loop.simps onloadedmetadata_def
      captureFrame_def emit_def settle_def init_def Let_def)

subsection \<open>Claims about the frame sampler\<close>

text \<open>
  C1 (bounded sampling). With the component mounted and a drawing context, a video whose
  metadata reports a finite duration \<open>D > 0\<close> and whose seeks all complete yields a
  resolved promise holding exactly \<open>min(maxFrames, ceil(D / interval))\<close> frames, for the
  fixed \<open>interval = 1\<close> and \<open>maxFrames = 16\<close>. And whatever the references and the video,
  a resolved promise never holds more than \<open>maxFrames\<close> frames.
\<close>

theorem extractFrames_bounded:
  "(videoRef r \<and> canvasRef r \<and> ctx r \<and> metadata v = Some (Finite D) \<and> 0 < D \<and>
    decode_error_at v = None \<longrightarrow>
      (\<exists>s fs. extractFrames r v = Some s \<and> promise s = Resolved fs \<and>
         length fs = min maxFrames (nat \<lceil>D / real interval\<rceil>))) \<and>
   (\<forall>s fs. extractFrames r v = Some s \<longrightarrow> promise s = Resolved fs \<longrightarrow>
      length fs \<le> maxFrames)"
proof (intro conjI impI allI)
  assume a: "videoRef r \<and> canvasRef r \<and> ctx r \<and> metadata v = Some (Finite D) \<and> 0 < D \<and>
    decode_error_at v = None"
  then have "extractFrames r v = Some (outcome v (Finite D))"
    by (simp add: extractFrames_outcome)
  moreover have "outcome v (Finite D) = finished v (Finite D) (frame_total (Finite D))"
    using a by (simp add: outcome_def)
  ultimately show "\<exists>s fs. extractFrames r v = Some s \<and> promise s = Resolved fs \<and>
         length fs = min maxFrames (nat \<lceil>D / real interval\<rceil>)"
    by (simp add: finished_def)
next
  fix s fs
  assume run: "extractFrames r v = Some s" and res: "promise s = Resolved fs"
  show "length fs \<le> maxFrames"
  proof (cases "videoRef r \<and> canvasRef r")
    case False
    with run res show ?thesis using not_ready_rejected [of r v s] by simp
  next
    case True
    with run have "sampler_inv (ctx r) s" by (simp add: extractFrames_inv)
    with res show ?thesis by (simp add: sampler_inv_def)
  qed
qed

theorem extractFrames_bounded_witness:
  "\<exists>s fs. extractFrames mounted (clip 3.4) = Some s \<and> promise s = Resolved fs \<and>
     length fs = 4"
  using extractFrames_bounded [of mounted "clip 3.4" "3.4"]
  by (simp add: mounted_def clip_def maxFrames_def interval_def)

text \<open>
  C3 (zero duration), as the code has it. With the component mounted, a video whose
  metadata cannot be read makes \<^verbatim>\<open>extractFrames\<close> reject with "Error loading video
  file."; a video of duration 0 makes it resolve with the empty sequence, and it is the
  caller, \<^verbatim>\<open>handleSubmit\<close>, that then fails with "Could not extract any frames from the
  video.", so no empty sequence ever reaches the analysis request.
\<close>

theorem extractFrames_unreadable_or_empty:
  assumes "videoRef r" "canvasRef r"
  shows "(metadata v = None \<longrightarrow>
            (\<exists>s. extractFrames r v = Some s \<and>
                 promise s = Rejected (Error ''Error loading video file.'')) \<and>
            handleSubmit_frames r v = Some (Inl (Error ''Error loading video file.''))) \<and>
         (metadata v = Some (Finite 0) \<longrightarrow>
            (\<exists>s. extractFrames r v = Some s \<and> promise s = Resolved [] \<and>
                 count_list (effects s) RevokeObjectURL = 1) \<and>
            handleSubmit_frames r v =
              Some (Inl (Error ''Could not extract any frames from the video.''))) \<and>
         (\<forall>fs. handleSubmit_frames r v = Some (Inr fs) \<longrightarrow> fs \<noteq> [])"
proof (intro conjI impI allI)
  assume "metadata v = None"
  then have run: "extractFrames r v = Some (onerror (emit SetSrc (emit CreateObjectURL init)))"
    using assms by (simp add: extractFrames_unreadable)
  have p: "promise (onerror (emit SetSrc (emit CreateObjectURL init))) =
             Rejected (Error ''Error loading video file.'')"
    by (simp add: onerror_def settle_def emit_def init_def)
  from run p show "\<exists>s. extractFrames r v = Some s \<and>
                 promise s = Rejected (Error ''Error loading video file.'')"
    by simp
  from run p show "handleSubmit_frames r v = Some (Inl (Error ''Error loading video file.''))"
    by (simp add: handleSubmit_frames_def)
next
  assume m: "metadata v = Some (Finite 0)"
  let ?s = "onloadedmetadata v (Finite 0) (emit SetSrc (emit CreateObjectURL init))"
  have p: "promise ?s = Resolved []"
    by (simp add: onloadedmetadata_def captureFrame_def settle_def emit_def init_def)
  then have "seek_loop (ctx r) v (Finite 0) 0 ?s = Some ?s"
    by (subst seek_loop.simps) simp
  with m assms have run: "extractFrames r v = Some ?s"
    by (simp add: extractFrames_def)
  have released: "count_list (effects ?s) RevokeObjectURL = 1"
    by (simp add: onloadedmetadata_def captureFrame_def settle_def emit_def init_def)
  from run p released
  show "\<exists>s. extractFrames r v = Some s \<and> promise s = Resolved [] \<and>
                 count_list (effects s) RevokeObjectURL = 1"
    by simp
  from run p show "handleSubmit_frames r v =
              Some (Inl (Error ''Could not extract any frames from the video.''))"
    by (simp add: handleSubmit_frames_def)
next
  fix fs
  assume "handleSubmit_frames r v = Some (Inr fs)"
  then show "fs \<noteq> []"
    by (auto simp: handleSubmit_frames_def split: option.splits promise.splits if_splits)
qed

theorem extractFrames_unreadable_or_empty_witness:
  "handleSubmit_frames mounted (clip 0) =
     Some (Inl (Error ''Could not extract any frames from the video.'')) \<and>
   handleSubmit_frames mounted ((clip 0)\<lparr>metadata := None\<rparr>) =
     Some (Inl (Error ''Error loading video file.''))"
  using extractFrames_unreadable_or_empty [of mounted "clip 0"]
    extractFrames_unreadable_or_empty [of mounted "(clip 0)\<lparr>metadata := None\<rparr>"]
  by (simp add: mounted_def clip_def)

text \<open>
  C3 as the specification states it fails: for a mounted component and a video of
  duration 0, the promise of \<^verbatim>\<open>extractFrames\<close> is resolved, with the empty sequence.
\<close>

theorem extractFrames_zero_duration_counterexample:
  "map_option promise (extractFrames mounted (clip 0)) = Some (Resolved [])"
  by (simp add: run_empty)

text \<open>
  C6 (monotonic capture order). In every run that resolves, the frame at index \<open>k\<close> is
  the picture of timeline position \<open>k * interval\<close>, the pictures were drawn at the
  positions \<open>0, interval, 2 * interval, ...\<close> in this order, and these positions are
  strictly increasing.
\<close>

theorem extractFrames_capture_order:
  assumes "extractFrames r v = Some s" "promise s = Resolved fs"
  shows "(\<forall>k < length fs. fs ! k = picture v (k * interval)) \<and>
         capture_positions (effects s) = map (\<lambda>k. k * interval) [0..<length fs] \<and>
         sorted_wrt (<) (capture_positions (effects s))"
proof -
  have "fs = map (\<lambda>k. picture v (k * interval)) [0..<length fs] \<and>
        capture_positions (effects s) = map (\<lambda>k. k * interval) [0..<length fs]"
  proof (cases "videoRef r \<and> canvasRef r")
    case False
    with assms show ?thesis using not_ready_rejected [of r v s] by simp
  next
    case ready: True
    show ?thesis
    proof (cases "metadata v")
      case None
      with ready assms show ?thesis
        by (auto simp: extractFrames_def onerror_def settle_def emit_def init_def)
    next
      case (Some d)
      show ?thesis
      proof (cases "ctx r")
        case True
        with ready Some assms(1) have s: "s = outcome v d"
          by (simp add: extractFrames_outcome)
        from outcome_cases [of v d] show ?thesis
        proof
          assume "outcome v d = finished v d (frame_total d)"
          with s assms(2) show ?thesis
            by (auto simp: finished_def capture_positions_append capture_positions_captures
                loaded_def)
        next
          assume "\<exists>e < frame_total d. outcome v d = onerror (seeking v d e)"
          with s assms(2) show ?thesis
            by (auto simp: onerror_def settle_def emit_def seeking_def)
        qed
      next
        case False
        from ready assms(1) have "sampler_inv (ctx r) s" by (simp add: extractFrames_inv)
        with False assms(2) show ?thesis
          by (auto simp: sampler_inv_def capture_positions_none)
      qed
    qed
  qed
  then have a: "fs = map (\<lambda>k. picture v (k * interval)) [0..<length fs]"
    and b: "capture_positions (effects s) = map (\<lambda>k. k * interval) [0..<length fs]"
    by simp_all
  have "\<forall>k < length fs. fs ! k = picture v (k * interval)"
  proof (intro allI impI)
    fix k assume "k < length fs"
    then have "map (\<lambda>k. picture v (k * interval)) [0..<length fs] ! k = picture v (k * interval)"
      by simp
    with a show "fs ! k = picture v (k * interval)" by simp
  qed
  with b sorted_positions [of "length fs"] show ?thesis by simp
qed

theorem extractFrames_capture_order_witness:
  "capture_positions (effects clip_run) = [0, 1, 2, 3] \<and>
   [still 0, still 1, still 2, still 3] ! 2 = picture (clip 3.4) (2 * interval)"
proof -
  have res: "promise clip_run = Resolved [still 0, still 1, still 2, still 3]"
    by (simp add: clip_run_def)
  note order = extractFrames_capture_order [OF run_clip res]
  from order [THEN conjunct1, rule_format, of 2]
  have a: "[still 0, still 1, still 2, still 3] ! 2 = picture (clip 3.4) (2 * interval)"
    by simp
  have "map (\<lambda>k. k * interval) [0..<length [still 0, still 1, still 2, still 3]] = [0, 1, 2, 3]"
    by (simp add: interval_def upt_rec [of 0] upt_rec [of 1] upt_rec [of 2] upt_rec [of 3])
  with order [THEN conjunct2, THEN conjunct1]
  have "capture_positions (effects clip_run) = [0, 1, 2, 3]"
    by (rule trans)
  with a show ?thesis by (rule conjI [rotated])
qed




text \<open>
  C8 (release of the object URL). Once the component is mounted, so that the object URL
  is created, every run that settles the promise, by resolving or by rejecting after an
  \<^verbatim>\<open>error\<close> event, has created one object URL and revoked it exactly once by then; and
  with a drawing context every run settles.
\<close>

theorem extractFrames_revokes_once:
  assumes "videoRef r" "canvasRef r"
  shows "(ctx r \<longrightarrow> (\<exists>s. extractFrames r v = Some s)) \<and>
         (\<forall>s. extractFrames r v = Some s \<longrightarrow>
            promise s \<noteq> Pending \<and>
            count_list (effects s) CreateObjectURL = 1 \<and>
            count_list (effects s) RevokeObjectURL = 1)"
proof -
  have "\<exists>s. extractFrames r v = Some s" if "ctx r"
    using that by (rule extractFrames_returns)
  moreover have "promise s \<noteq> Pending \<and>
            count_list (effects s) CreateObjectURL = 1 \<and>
            count_list (effects s) RevokeObjectURL = 1" if "extractFrames r v = Some s" for s
  proof -
    from assms that have "sampler_inv (ctx r) s \<and> promise s \<noteq> Pending"
      by (simp add: extractFrames_inv)
    then show ?thesis by (simp add: sampler_inv_def)
  qed
  ultimately show ?thesis by blast
qed

theorem extractFrames_revokes_once_witness:
  "(\<exists>s. extractFrames mounted (clip 3.4) = Some s) \<and>
   count_list (effects clip_run) RevokeObjectURL = 1"
proof -
  have "videoRef mounted" "canvasRef mounted" by (simp_all add: mounted_def)
  note once = extractFrames_revokes_once [OF this, of "clip 3.4"]
  from once [THEN conjunct2, rule_format, OF run_clip]
  have "count_list (effects clip_run) RevokeObjectURL = 1" by simp
  moreover have "\<exists>s. extractFrames mounted (clip 3.4) = Some s"
    using run_clip by (intro exI)
  ultimately show ?thesis by (rule conjI [rotated])
qed

section \<open>Asynchronous job poller: proofs\<close>

lemma poll_done: "op_done h \<Longrightarrow> poll p n h tr = Some (tr, Inr h)"
  by (subst poll.simps) simp

lemma poll_rounds:
  assumes "\<not> op_done h"
    and "\<forall>j<k. \<forall>h. \<exists>h'. getVideosOperation p (n + j) h = Inr h' \<and> \<not> op_done h'"
    and "\<forall>h. getVideosOperation p (n + k) h = Inr final"
    and "op_done final"
  shows "poll p n h tr = Some (tr @ concat (replicate (k + 1) round), Inr final)"
  using assms
proof (induction k arbitrary: n h tr)
  case 0
  then show ?case
    by (subst poll.simps) (simp add: poll_done)
next
  case (Suc k)
  from Suc.prems(2) obtain h' where h': "getVideosOperation p n h = Inr h'" "\<not> op_done h'"
    by (metis add.right_neutral zero_less_Suc)
  have later: "\<forall>j<k. \<forall>h. \<exists>h'. getVideosOperation p (n + 1 + j) h = Inr h' \<and> \<not> op_done h'"
  proof (intro allI impI)
    fix j h assume "j < k"
    then have "Suc j < Suc k" by simp
    with Suc.prems(2) have "\<exists>h'. getVideosOperation p (n + Suc j) h = Inr h' \<and> \<not> op_done h'"
      by blast
    then show "\<exists>h'. getVideosOperation p (n + 1 + j) h = Inr h' \<and> \<not> op_done h'" by simp
  qed
  have fin: "\<forall>h. getVideosOperation p (n + 1 + k) h = Inr final"
    using Suc.prems(3) by simp
  have "poll p (n + 1) h' (tr @ round) =
          Some ((tr @ round) @ concat (replicate (k + 1) round), Inr final)"
    by (rule Suc.IH [OF h'(2) later fin Suc.prems(4)])
  with Suc.prems(1) h'(1) show ?case
    by (subst poll.simps) simp
qed

lemma poll_result:
  assumes "poll p n h tr = Some (tr', res)"
  shows "(\<forall>u. CallFetch u \<notin> set tr) \<Longrightarrow>
           (\<forall>u. CallFetch u \<notin> set tr') \<and> (\<forall>h'. res = Inr h' \<longrightarrow> op_done h')"
  using assms
proof (induction p n h tr "(tr', res)" rule: poll.raw_induct [rotated 1, consumes 1])
  case (1 loop p n h tr)
  note IH = 1(1) and eq = 1(2) and nf = 1(3)
  show ?case
  proof (cases "op_done h")
    case True
    with eq nf show ?thesis by auto
  next
    case False
    show ?thesis
    proof (cases "getVideosOperation p n h")
      case (Inl err)
      with False eq nf show ?thesis by (auto simp: round_def)
    next
      case (Inr h')
      with False eq have "loop p (n + 1) h' (tr @ round) = Some (tr', res)" by simp
      moreover have "\<forall>u. CallFetch u \<notin> set (tr @ round)"
        using nf by (simp add: round_def)
      ultimately show ?thesis using IH by blast
    qed
  qed
qed

lemma waiting_no_fetch: "\<forall>u. CallFetch u \<notin> set waiting"
  by (simp add: waiting_def starting_def)

lemma count_rounds: "count_list (concat (replicate n round)) CallGetVideosOperation = n"
  by (induction n) (simp_all add: round_def)

lemma count_waiting: "count_list waiting CallGetVideosOperation = 0"
  by (simp add: waiting_def starting_def)

text \<open>
  C2 (poller termination). With the API key set, a submit that returns a handle that is
  not done, a status query that answers "not done" to its first \<open>k\<close> calls and, to call
  \<open>k + 1\<close>, a done handle without error and with a download link, and a download that
  succeeds: \<^verbatim>\<open>handleVideoOperation\<close> returns, has queried exactly \<open>k + 1\<close> times, and its
  result is the object URL of the downloaded blob.
\<close>

theorem handleVideoOperation_polls:
  assumes "truthy (API_KEY p)"
    and "getOperation p = Inr submitted" "\<not> op_done submitted"
    and "\<forall>j<k. \<forall>h. \<exists>h'. getVideosOperation p j h = Inr h' \<and> \<not> op_done h'"
    and "\<forall>h. getVideosOperation p k h = Inr final"
    and "op_done final" "op_error final = None" "truthy (downloadLink final)"
    and "fetch p (js_string (downloadLink final) @ ''&key='' @ js_string (API_KEY p)) =
           Inr downloaded"
    and "ok downloaded"
  shows "\<exists>tr. handleVideoOperation p =
                 Some (tr, Inr (createObjectURL p (body_blob downloaded))) \<and>
              count_list tr CallGetVideosOperation = k + 1"
proof -
  have "poll p 0 submitted waiting =
          Some (waiting @ concat (replicate (k + 1) round), Inr final)"
    using assms(3-6) by (intro poll_rounds) simp_all
  then show ?thesis
    using assms(1,2,7-10) count_rounds [of "k + 1"] count_waiting
    by (simp add: handleVideoOperation_def Let_def)
qed

theorem handleVideoOperation_polls_witness:
  "\<exists>tr. handleVideoOperation (service 2 ready_op) = Some (tr, Inr ''blob:mp4'') \<and>
     count_list tr CallGetVideosOperation = 3"
  using handleVideoOperation_polls [of "service 2 ready_op" pending_op 2 ready_op
      "\<lparr>ok = True, statusText = ''OK'', body_text = [], body_blob = ''mp4''\<rparr>"]
  by (simp add: service_def stub_def pending_op_def ready_op_def download_ok_def blob_url_def
      truthy_def downloadLink_def js_string_def)

text \<open>
  C4 (failure propagation). In every run in which the polling loop ends holding a handle
  with an \<^verbatim>\<open>error\<close> whose message is \<open>X\<close>, the handle is done, the poller fails with the
  error "Video generation failed: X", and \<^verbatim>\<open>fetch\<close> was never called.
\<close>

theorem handleVideoOperation_job_failed:
  assumes "truthy (API_KEY p)" "getOperation p = Inr submitted"
    and "poll p 0 submitted waiting = Some (tr, Inr operation)"
    and "op_error operation = Some e" "message e = Some X"
  shows "handleVideoOperation p = Some (tr, Inl (Error (''Video generation failed: '' @ X))) \<and>
         op_done operation \<and> (\<forall>u. CallFetch u \<notin> set tr)"
  using assms poll_result [OF assms(3) waiting_no_fetch]
  by (simp add: handleVideoOperation_def js_string_def)

lemma poll_stub_1:
  "op_done final \<Longrightarrow>
   poll (service 1 final) 0 pending_op waiting =
     Some (waiting @ round @ round, Inr final)"
  by (simp add: poll.simps service_def stub_def pending_op_def)

theorem handleVideoOperation_job_failed_witness:
  "handleVideoOperation (service 1 failed_op) =
     Some (waiting @ round @ round, Inl (Error ''Video generation failed: X'')) \<and>
   CallFetch ''https://videos.example/v1?alt=media&key=KEY'' \<notin> set (waiting @ round @ round)"
proof -
  have run: "poll (service 1 failed_op) 0 pending_op waiting =
               Some (waiting @ round @ round, Inr failed_op)"
    by (rule poll_stub_1) (simp add: failed_op_def)
  have "truthy (API_KEY (service 1 failed_op))" "getOperation (service 1 failed_op) = Inr pending_op"
    by (simp_all add: service_def truthy_def)
  from handleVideoOperation_job_failed [OF this run, of "\<lparr>message = Some ''X''\<rparr>" "''X''"]
  show ?thesis by (simp add: failed_op_def)
qed

text \<open>
  C5 (missing artifact). In every run in which the polling loop ends holding a handle
  without \<^verbatim>\<open>error\<close> and without a download link in its payload (absent or empty), the
  poller fails with the error "Could not retrieve video download link.", and \<^verbatim>\<open>fetch\<close>
  was never called.
\<close>

theorem handleVideoOperation_missing_artifact:
  assumes "truthy (API_KEY p)" "getOperation p = Inr submitted"
    and "poll p 0 submitted waiting = Some (tr, Inr operation)"
    and "op_error operation = None" "\<not> truthy (downloadLink operation)"
  shows "handleVideoOperation p =
           Some (tr, Inl (Error ''Could not retrieve video download link.'')) \<and>
         op_done operation \<and> (\<forall>u. CallFetch u \<notin> set tr)"
  using assms poll_result [OF assms(3) waiting_no_fetch]
  by (simp add: handleVideoOperation_def)

theorem handleVideoOperation_missing_artifact_witness:
  "handleVideoOperation (service 1 empty_op) =
     Some (waiting @ round @ round, Inl (Error ''Could not retrieve video download link.'')) \<and>
   CallFetch ''&key=KEY'' \<notin> set (waiting @ round @ round)"
proof -
  have run: "poll (service 1 empty_op) 0 pending_op waiting =
               Some (waiting @ round @ round, Inr empty_op)"
    by (rule poll_stub_1) (simp add: empty_op_def)
  have "truthy (API_KEY (service 1 empty_op))" "getOperation (service 1 empty_op) = Inr pending_op"
    by (simp_all add: service_def truthy_def)
  from handleVideoOperation_missing_artifact [OF this run]
  show ?thesis by (simp add: empty_op_def downloadLink_def truthy_def)
qed

section \<open>Provider requests: proofs\<close>

lemma first_image_none:
  "\<forall>p \<in> set ps. inlineData p = None \<Longrightarrow> first_image ps = Inl (Error ''No image generated'')"
  by (induction ps) simp_all

lemma first_image_some:
  "\<exists>p \<in> set ps. inlineData p \<noteq> None \<Longrightarrow>
   \<exists>pre p post i. ps = pre @ p # post \<and> (\<forall>q \<in> set pre. inlineData q = None) \<and>
      inlineData p = Some i \<and>
      first_image ps = Inr (''data:image/png;base64,'' @ js_string (data i))"
proof (induction ps)
  case Nil
  then show ?case by simp
next
  case (Cons a ps)
  show ?case
  proof (cases "inlineData a")
    case (Some i)
    then have "a # ps = [] @ a # ps \<and> (\<forall>q \<in> set []. inlineData q = None) \<and>
        inlineData a = Some i \<and>
        first_image (a # ps) = Inr (''data:image/png;base64,'' @ js_string (data i))"
      by simp
    then show ?thesis by blast
  next
    case None
    with Cons.prems have "\<exists>p \<in> set ps. inlineData p \<noteq> None" by auto
    from Cons.IH [OF this] obtain pre p post i where
      "ps = pre @ p # post" "\<forall>q \<in> set pre. inlineData q = None" "inlineData p = Some i"
      "first_image ps = Inr (''data:image/png;base64,'' @ js_string (data i))"
      by blast
    with None have "a # ps = (a # pre) @ p # post \<and> (\<forall>q \<in> set (a # pre). inlineData q = None) \<and>
        inlineData p = Some i \<and>
        first_image (a # ps) = Inr (''data:image/png;base64,'' @ js_string (data i))"
      by simp
    then show ?thesis by blast
  qed
qed

lemma first_parts_Inr:
  "first_parts r = Inr ps \<longleftrightarrow>
     (\<exists>c cs ct. candidates r = Some (c # cs) \<and> candidate_content c = Some ct \<and>
        content_parts ct = Some ps)"
  by (auto simp: first_parts_def split: option.splits list.splits)

lemma first_parts_Inl: "(\<forall>ps. first_parts r \<noteq> Inr ps) \<Longrightarrow> first_parts r = Inl TypeError"
  by (auto simp: first_parts_def split: option.splits list.splits)

text \<open>
  C9 (\<^verbatim>\<open>editImage\<close>), as the code has it. When the file is read and the provider answers:
  if the answer has a first candidate with content and parts, then, if some part carries
  inline data, the result is "data:image/png;base64," followed by the data of the first
  such part, whatever MIME type the part declares, and if no part carries inline data,
  \<^verbatim>\<open>editImage\<close> fails with the error "No image generated". If the answer has no
  candidate, or its first candidate has no content or no parts, \<^verbatim>\<open>editImage\<close> fails
  with a \<^verbatim>\<open>TypeError\<close> instead.
\<close>

theorem editImage_result:
  assumes "fileToGenerativePart g imageFile = Inr imagePart"
    and "generateContent g (editImage_request prompt imagePart) = Inr r"
  shows "(\<forall>c cs ct ps.
            candidates r = Some (c # cs) \<and> candidate_content c = Some ct \<and>
            content_parts ct = Some ps \<longrightarrow>
              ((\<exists>p \<in> set ps. inlineData p \<noteq> None) \<longrightarrow>
                 (\<exists>pre p post i. ps = pre @ p # post \<and>
                    (\<forall>q \<in> set pre. inlineData q = None) \<and> inlineData p = Some i \<and>
                    editImage g prompt imageFile =
                      Inr (''data:image/png;base64,'' @ js_string (data i)))) \<and>
              ((\<forall>p \<in> set ps. inlineData p = None) \<longrightarrow>
                 editImage g prompt imageFile = Inl (Error ''No image generated''))) \<and>
         (\<not> (\<exists>c cs ct ps. candidates r = Some (c # cs) \<and> candidate_content c = Some ct \<and>
                content_parts ct = Some ps) \<longrightarrow>
            editImage g prompt imageFile = Inl TypeError)"
proof (intro conjI allI impI)
  fix c cs ct ps
  assume first: "candidates r = Some (c # cs) \<and> candidate_content c = Some ct \<and>
            content_parts ct = Some ps"
    and some: "\<exists>p \<in> set ps. inlineData p \<noteq> None"
  from first have "first_parts r = Inr ps" by (auto simp: first_parts_Inr)
  then have run: "editImage g prompt imageFile = first_image ps"
    using assms by (simp add: editImage_def)
  from some show "\<exists>pre p post i. ps = pre @ p # post \<and>
                    (\<forall>q \<in> set pre. inlineData q = None) \<and> inlineData p = Some i \<and>
                    editImage g prompt imageFile =
                      Inr (''data:image/png;base64,'' @ js_string (data i))"
    unfolding run by (rule first_image_some)
next
  fix c cs ct ps
  assume first: "candidates r = Some (c # cs) \<and> candidate_content c = Some ct \<and>
            content_parts ct = Some ps"
    and none: "\<forall>p \<in> set ps. inlineData p = None"
  from first have "first_parts r = Inr ps" by (auto simp: first_parts_Inr)
  then have run: "editImage g prompt imageFile = first_image ps"
    using assms by (simp add: editImage_def)
  from none show "editImage g prompt imageFile = Inl (Error ''No image generated'')"
    unfolding run by (rule first_image_none)
next
  assume "\<not> (\<exists>c cs ct ps. candidates r = Some (c # cs) \<and> candidate_content c = Some ct \<and>
                content_parts ct = Some ps)"
  then have "\<forall>ps. first_parts r \<noteq> Inr ps" by (auto simp: first_parts_Inr)
  then have "first_parts r = Inl TypeError" by (rule first_parts_Inl)
  then show "editImage g prompt imageFile = Inl TypeError"
    using assms by (simp add: editImage_def)
qed

lemma photo_part:
  "fileToGenerativePart \<lparr>readAsDataURL = reader, generateContent = G\<rparr> photo =
     Inr \<lparr>inlineData = Some \<lparr>data = Some ''QUJD'', mimeType = Some ''image/png''\<rparr>,
          part_text = None\<rparr>"
  by (simp add: fileToGenerativePart_def fileToBase64_def reader_def photo_def second_def)

theorem editImage_result_witness:
  "editImage \<lparr>readAsDataURL = reader, generateContent = jpeg_reply\<rparr> ''Add a hat'' photo =
     Inr ''data:image/png;base64,/9j/4AAQ'' \<and>
   editImage \<lparr>readAsDataURL = reader, generateContent = text_reply\<rparr> ''Add a hat'' photo =
     Inl (Error ''No image generated'') \<and>
   editImage \<lparr>readAsDataURL = reader, generateContent = empty_reply\<rparr> ''Add a hat'' photo =
     Inl TypeError"
proof -
  let ?jpeg = "\<lparr>inlineData = Some \<lparr>data = Some ''/9j/4AAQ'', mimeType = Some ''image/jpeg''\<rparr>,
               part_text = None\<rparr>"
  have jpeg: "generateContent \<lparr>readAsDataURL = reader, generateContent = jpeg_reply\<rparr> q =
      Inr \<lparr>candidates = Some [\<lparr>candidate_content = Some \<lparr>content_parts = Some
             [text_part ''Here is the edited image.'', ?jpeg]\<rparr>\<rparr>],
          response_text = Some ''Here is the edited image.''\<rparr>" for q
    by (simp add: jpeg_reply_def)
  have plain: "generateContent \<lparr>readAsDataURL = reader, generateContent = text_reply\<rparr> q =
      Inr \<lparr>candidates = Some [\<lparr>candidate_content = Some \<lparr>content_parts = Some
             [text_part ''I cannot edit this image.'']\<rparr>\<rparr>],
          response_text = Some ''I cannot edit this image.''\<rparr>" for q
    by (simp add: text_reply_def)
  have none: "generateContent \<lparr>readAsDataURL = reader, generateContent = empty_reply\<rparr> q =
      Inr \<lparr>candidates = Some [], response_text = None\<rparr>" for q
    by (simp add: empty_reply_def)
  from editImage_result [OF photo_part jpeg, THEN conjunct1, rule_format,
      of "\<lparr>candidate_content = Some \<lparr>content_parts = Some
             [text_part ''Here is the edited image.'', ?jpeg]\<rparr>\<rparr>" "[]"
         "\<lparr>content_parts = Some [text_part ''Here is the edited image.'', ?jpeg]\<rparr>"
         "[text_part ''Here is the edited image.'', ?jpeg]" "''Add a hat''"]
  have a: "editImage \<lparr>readAsDataURL = reader, generateContent = jpeg_reply\<rparr> ''Add a hat'' photo =
             Inr ''data:image/png;base64,/9j/4AAQ''"
    by (auto simp: text_part_def js_string_def append_eq_Cons_conv Cons_eq_append_conv)
  from editImage_result [OF photo_part plain, THEN conjunct1, rule_format,
      of "\<lparr>candidate_content = Some \<lparr>content_parts = Some
             [text_part ''I cannot edit this image.'']\<rparr>\<rparr>" "[]"
         "\<lparr>content_parts = Some [text_part ''I cannot edit this image.'']\<rparr>"
         "[text_part ''I cannot edit this image.'']" "''Add a hat''"]
  have b: "editImage \<lparr>readAsDataURL = reader, generateContent = text_reply\<rparr> ''Add a hat'' photo =
             Inl (Error ''No image generated'')"
    by (simp add: text_part_def)
  from editImage_result [OF photo_part none, THEN conjunct2, of "''Add a hat''"]
  have c: "editImage \<lparr>readAsDataURL = reader, generateContent = empty_reply\<rparr> ''Add a hat'' photo =
             Inl TypeError"
    by simp
  from a b c show ?thesis by simp
qed

text \<open>
  C9 as stated fails: when the provider's answer has no candidate, no part carries inline
  data, yet \<^verbatim>\<open>editImage\<close> does not fail with "No image generated" but with the
  \<^verbatim>\<open>TypeError\<close> of reading \<^verbatim>\<open>content\<close> of \<^verbatim>\<open>undefined\<close>.
\<close>

theorem editImage_no_candidate_counterexample:
  "editImage \<lparr>readAsDataURL = reader, generateContent = empty_reply\<rparr> ''Add a hat'' photo =
     Inl TypeError \<and>
   editImage \<lparr>readAsDataURL = reader, generateContent = empty_reply\<rparr> ''Add a hat'' photo \<noteq>
     Inl (Error ''No image generated'')"
  by (simp add: editImage_def photo_part empty_reply_def first_parts_def)

text \<open>
  C10 (empty prompt). For the empty prompt \<^verbatim>\<open>analyzeImage\<close> and \<^verbatim>\<open>analyzeVideoFrames\<close>
  send the provider the request whose text part is their built-in default prompt, and
  return what it answers; this is the very request, and so the very result, of a call
  with that default prompt. The empty prompt is neither rejected nor sent.
\<close>

theorem empty_prompt_default:
  "analyzeImage g [] imageFile =
     (case fileToGenerativePart g imageFile of
        Inl err \<Rightarrow> Inl err
      | Inr p \<Rightarrow>
          (case generateContent g
                  \<lparr>model = ''gemini-2.5-flash'',
                   parts = [\<lparr>inlineData = None,
                             part_text = Some ''Analyze this image in detail.''\<rparr>, p],
                   responseModalities = None\<rparr> of
             Inl err \<Rightarrow> Inl err
           | Inr r \<Rightarrow> Inr (response_text r))) \<and>
   analyzeVideoFrames g [] frameList =
     (case generateContent g
             \<lparr>model = ''gemini-2.5-pro'',
              parts = \<lparr>inlineData = None,
                       part_text = Some
                         ''These are sequential frames from a video. Analyze the video and describe what is happening.''\<rparr>
                      # map frame_part frameList,
              responseModalities = None\<rparr> of
        Inl err \<Rightarrow> Inl err
      | Inr r \<Rightarrow> Inr (response_text r)) \<and>
   analyzeImage_request [] imagePart =
     analyzeImage_request ''Analyze this image in detail.'' imagePart \<and>
   parts (analyzeImage_request [] imagePart) =
     [text_part ''Analyze this image in detail.'', imagePart] \<and>
   analyzeImage g [] imageFile = analyzeImage g ''Analyze this image in detail.'' imageFile \<and>
   analyzeVideoFrames_request [] frameList =
     analyzeVideoFrames_request
       ''These are sequential frames from a video. Analyze the video and describe what is happening.''
       frameList \<and>
   parts (analyzeVideoFrames_request [] frameList) =
     text_part
       ''These are sequential frames from a video. Analyze the video and describe what is happening.''
       # map frame_part frameList \<and>
   analyzeVideoFrames g [] frameList =
     analyzeVideoFrames g
       ''These are sequential frames from a video. Analyze the video and describe what is happening.''
       frameList"
proof -
  have image: "analyzeImage_request [] x = analyzeImage_request ''Analyze this image in detail.'' x"
    for x
    by (simp add: analyzeImage_request_def or_default_def)
  have video: "analyzeVideoFrames_request [] frameList =
     analyzeVideoFrames_request
       ''These are sequential frames from a video. Analyze the video and describe what is happening.''
       frameList"
    by (simp add: analyzeVideoFrames_request_def or_default_def)
  have image_sent: "analyzeImage_request [] x =
      \<lparr>model = ''gemini-2.5-flash'',
       parts = [\<lparr>inlineData = None, part_text = Some ''Analyze this image in detail.''\<rparr>, x],
       responseModalities = None\<rparr>" for x
    by (simp add: analyzeImage_request_def or_default_def text_part_def)
  have video_sent: "analyzeVideoFrames_request [] frameList =
      \<lparr>model = ''gemini-2.5-pro'',
       parts = \<lparr>inlineData = None,
                part_text = Some
                  ''These are sequential frames from a video. Analyze the video and describe what is happening.''\<rparr>
               # map frame_part frameList,
       responseModalities = None\<rparr>"
    by (simp add: analyzeVideoFrames_request_def or_default_def text_part_def)
  have "analyzeImage g [] imageFile =
     (case fileToGenerativePart g imageFile of
        Inl err \<Rightarrow> Inl err
      | Inr p \<Rightarrow>
          (case generateContent g
                  \<lparr>model = ''gemini-2.5-flash'',
                   parts = [\<lparr>inlineData = None,
                             part_text = Some ''Analyze this image in detail.''\<rparr>, p],
                   responseModalities = None\<rparr> of
             Inl err \<Rightarrow> Inl err
           | Inr r \<Rightarrow> Inr (response_text r)))"
    unfolding analyzeImage_def image_sent ..
  moreover have "analyzeVideoFrames g [] frameList =
     (case generateContent g
             \<lparr>model = ''gemini-2.5-pro'',
              parts = \<lparr>inlineData = None,
                       part_text = Some
                         ''These are sequential frames from a video. Analyze the video and describe what is happening.''\<rparr>
                      # map frame_part frameList,
              responseModalities = None\<rparr> of
        Inl err \<Rightarrow> Inl err
      | Inr r \<Rightarrow> Inr (response_text r))"
    unfolding analyzeVideoFrames_def video_sent ..
  moreover have "parts (analyzeImage_request [] imagePart) =
          [text_part ''Analyze this image in detail.'', imagePart]"
    by (simp add: analyzeImage_request_def or_default_def)
  moreover have "parts (analyzeVideoFrames_request [] frameList) =
     text_part
       ''These are sequential frames from a video. Analyze the video and describe what is happening.''
       # map frame_part frameList"
    by (simp add: analyzeVideoFrames_request_def or_default_def)
  moreover have "analyzeImage g [] imageFile =
                   analyzeImage g ''Analyze this image in detail.'' imageFile"
    unfolding analyzeImage_def image ..
  moreover have "analyzeVideoFrames g [] frameList =
     analyzeVideoFrames g
       ''These are sequential frames from a video. Analyze the video and describe what is happening.''
       frameList"
    unfolding analyzeVideoFrames_def video ..
  ultimately show ?thesis using image video by simp
qed

text \<open>
  On a provider that answers with the text it was sent, the empty prompt comes back as
  the default prompt.
\<close>

theorem empty_prompt_default_witness:
  "analyzeImage \<lparr>readAsDataURL = reader, generateContent = echo\<rparr> [] photo =
     Inr (Some ''Analyze this image in detail.'') \<and>
   analyzeVideoFrames \<lparr>readAsDataURL = reader, generateContent = echo\<rparr> [] [still 0] =
     Inr (Some
       ''These are sequential frames from a video. Analyze the video and describe what is happening.'')"
proof -
  note sent = empty_prompt_default [of "\<lparr>readAsDataURL = reader, generateContent = echo\<rparr>"
      photo "[still 0]"]
  from sent [THEN conjunct1]
  have a: "analyzeImage \<lparr>readAsDataURL = reader, generateContent = echo\<rparr> [] photo =
             Inr (Some ''Analyze this image in detail.'')"
    by (simp add: photo_part echo_def)
  from sent [THEN conjunct2, THEN conjunct1]
  have b: "analyzeVideoFrames \<lparr>readAsDataURL = reader, generateContent = echo\<rparr> [] [still 0] =
     Inr (Some
       ''These are sequential frames from a video. Analyze the video and describe what is happening.'')"
    by (simp add: echo_def)
  from a b show ?thesis by (rule conjI)
qed

end
